theory Spec2Isabelle
  imports Complex_Main
begin

section \<open>Helper functions of the RAG playground: loading a corpus, a secret, embeddings\<close>

text \<open>
  The module \<^verbatim>\<open>src/helper_functions.py\<close> has three functions: \<^verbatim>\<open>load_data\<close>,
  \<^verbatim>\<open>get_openai_api_key\<close> and \<^verbatim>\<open>embed_documents\<close>. Each of them is a few lines
  of Python around library calls (\<^verbatim>\<open>Path.glob\<close>, \<^verbatim>\<open>open\<close>, \<^verbatim>\<open>read\<close>,
  \<^verbatim>\<open>Path.stem\<close>, \<^verbatim>\<open>json.load\<close>, \<^verbatim>\<open>pd.DataFrame\<close>) and around a client
  object handed in by the caller. The functions are embedded as they are written. What
  the libraries and the file system answer is data of the model: an exception is a value
  \<open>Inl e\<close> of a sum type, the open file handles are an explicit state that every
  operation takes and returns.
\<close>

subsection \<open>Exceptions\<close>

text \<open>
  The exceptions that the calls of the module can raise. \<open>OSError\<close> stands for a
  failure of the operating system that has no class of its own, an input/output error
  for example.
\<close>

datatype error =
    FileNotFoundError
  | NotADirectoryError
  | IsADirectoryError
  | PermissionError
  | OSError
  | UnicodeDecodeError
  | JSONDecodeError
  | KeyError string
  | TypeError
  | ValueError
  | APIError string

subsection \<open>Files and file handles\<close>

text \<open>
  A directory entry: its name, what \<^verbatim>\<open>open(path, 'r')\<close> does on it (\<open>None\<close>: a handle
  is returned; \<open>Some e\<close>: \<open>e\<close> is raised, for example \<open>IsADirectoryError\<close> when the
  entry is a directory), and its decoded content: the bytes of the file decoded in the
  default encoding, or the exception of the decoder.
\<close>

record path =
  fname :: string
  fopen :: "error option"
  fdecoded :: "error + string"

text \<open>
  A file opened with mode \<^verbatim>\<open>'r'\<close> and no \<^verbatim>\<open>newline\<close> argument is read with universal
  newlines: a carriage return followed by a line feed, and a carriage return alone,
  both become one line feed.
\<close>

fun universal_newlines :: "string \<Rightarrow> string" where
  "universal_newlines [] = []"
| "universal_newlines [c] = (if c = CHR 0x0D then [CHR 0x0A] else [c])"
| "universal_newlines (c # d # cs) =
     (if c = CHR 0x0D \<and> d = CHR 0x0A then CHR 0x0A # universal_newlines cs
      else if c = CHR 0x0D then CHR 0x0A # universal_newlines (d # cs)
      else c # universal_newlines (d # cs))"

text \<open>
  \<^verbatim>\<open>file.read()\<close> on a handle: the decoded content with the newlines translated, or
  the exception of the decoder.
\<close>

definition fread :: "path \<Rightarrow> error + string" where
  "fread h =
     (case fdecoded h of Inl e \<Rightarrow> Inl e | Inr content \<Rightarrow> Inr (universal_newlines content))"

text \<open>
  The handles that are open (the most recent first) and the number of handles
  opened so far.
\<close>

record io =
  live :: "string list"
  opens :: nat

definition open_file :: "path \<Rightarrow> io \<Rightarrow> (error + path) \<times> io" where
  "open_file f s =
     (case fopen f of
        Some e \<Rightarrow> (Inl e, s)
      | None \<Rightarrow> (Inr f, s\<lparr>live := fname f # live s, opens := Suc (opens s)\<rparr>))"

definition close_file :: "path \<Rightarrow> io \<Rightarrow> io" where
  "close_file h s = s\<lparr>live := remove1 (fname h) (live s)\<rparr>"

text \<open>
  \<^verbatim>\<open>with open(path, 'r') as file: body\<close>. When \<^verbatim>\<open>open\<close> raises there is no handle and
  the body does not run. Otherwise the handle is closed when the body is left, by a
  return or by an exception, and the exception goes on to the caller.
\<close>

definition with_open :: "path \<Rightarrow> (path \<Rightarrow> io \<Rightarrow> (error + 'a) \<times> io) \<Rightarrow> io \<Rightarrow> (error + 'a) \<times> io" where
  "with_open f body s =
     (case open_file f s of
        (Inl e, s1) \<Rightarrow> (Inl e, s1)
      | (Inr h, s1) \<Rightarrow> (case body h s1 of (r, s2) \<Rightarrow> (r, close_file h s2)))"

subsection \<open>Directories and \<^verbatim>\<open>Path.glob\<close>\<close>

text \<open>
  The argument \<^verbatim>\<open>data_dir\<close> is an object with a method \<^verbatim>\<open>glob\<close>. It is modelled by what
  listing it gives (the entries in the order of the listing, or the exception of the
  listing) and by the matcher of names against patterns that its \<^verbatim>\<open>glob\<close> uses
  (\<^verbatim>\<open>fnmatch\<close> in pathlib, whose case rule depends on the platform). Both are library
  behaviour, so the model takes them as given.

  \<^verbatim>\<open>Path.glob\<close> does not raise for a directory that it cannot list because the path
  is missing, is not a directory or may not be read: it asks \<^verbatim>\<open>is_dir\<close> first, which
  is false for a missing path and for a path that is no directory, and it catches the
  \<open>PermissionError\<close> of the listing. In these three cases it yields no path. Any
  other failure of the listing is raised.
\<close>

record directory =
  scandir :: "error + path list"
  fnmatch :: "string \<Rightarrow> string \<Rightarrow> bool"

fun glob_ignores :: "error \<Rightarrow> bool" where
  "glob_ignores FileNotFoundError = True"
| "glob_ignores NotADirectoryError = True"
| "glob_ignores PermissionError = True"
| "glob_ignores e = False"

definition glob :: "directory \<Rightarrow> string \<Rightarrow> error + path list" where
  "glob d pat =
     (case scandir d of
        Inl e \<Rightarrow> (if glob_ignores e then Inr [] else Inl e)
      | Inr es \<Rightarrow> Inr (filter (\<lambda>f. fnmatch d pat (fname f)) es))"

text \<open>
  A matcher for the examples: \<^verbatim>\<open>fnmatch.fnmatchcase\<close> on patterns made of \<^verbatim>\<open>*\<close>
  (any run of characters, the empty one too), \<^verbatim>\<open>?\<close> (any one character) and literal
  characters, which match themselves. Bracket expressions are not covered; the
  examples have none.
\<close>

fun posix_fnmatch :: "string \<Rightarrow> string \<Rightarrow> bool" where
  "posix_fnmatch [] [] = True"
| "posix_fnmatch [] (c # cs) = False"
| "posix_fnmatch (p # ps) [] = (p = CHR ''*'' \<and> posix_fnmatch ps [])"
| "posix_fnmatch (p # ps) (c # cs) =
     (if p = CHR ''*'' then posix_fnmatch ps (c # cs) \<or> posix_fnmatch (p # ps) cs
      else if p = CHR ''?'' then posix_fnmatch ps cs
      else p = c \<and> posix_fnmatch ps cs)"

subsection \<open>\<^verbatim>\<open>Path.stem\<close>\<close>

text \<open>
  \<^verbatim>\<open>str.rfind\<close>: the highest index of the character, \<open>-1\<close> when it does not occur.
\<close>

fun rfind :: "string \<Rightarrow> char \<Rightarrow> int" where
  "rfind [] c = - 1"
| "rfind (x # xs) c =
     (let r = rfind xs c in if 0 \<le> r then r + 1 else if x = c then 0 else - 1)"

text \<open>
  pathlib: \<^verbatim>\<open>i = name.rfind('.')\<close>, and the stem is \<^verbatim>\<open>name[:i]\<close> if
  \<^verbatim>\<open>0 < i < len(name) - 1\<close>, the whole name otherwise.
\<close>

definition stem :: "string \<Rightarrow> string" where
  "stem name =
     (let i = rfind name CHR ''.''
      in if 0 < i \<and> i < int (length name) - 1 then take (nat i) name else name)"

subsection \<open>The data frame\<close>

text \<open>
  \<^verbatim>\<open>pd.DataFrame(dict)\<close> on a dictionary from column names to lists: the columns in the
  order of the dictionary. pandas raises \<open>ValueError\<close> when the lists differ in length.
  It infers the dtype of a column from the list it is built from: \<^verbatim>\<open>object\<close> for a
  list of Python strings, and its default \<^verbatim>\<open>float64\<close> for an empty list, which has no
  element to infer a type from.
\<close>

type_synonym dataframe = "(string \<times> string list) list"

definition DataFrame :: "(string \<times> string list) list \<Rightarrow> error + dataframe" where
  "DataFrame cols =
     (if length (remdups (map (\<lambda>c. length (snd c)) cols)) \<le> 1 then Inr cols
      else Inl ValueError)"

definition column :: "dataframe \<Rightarrow> string \<Rightarrow> string list option" where
  "column df c = map_of df c"

definition nrows :: "dataframe \<Rightarrow> nat" where
  "nrows df = (case df of [] \<Rightarrow> 0 | c # _ \<Rightarrow> length (snd c))"

datatype dtype = Object | Float64

definition infer_dtype :: "string list \<Rightarrow> dtype" where
  "infer_dtype xs = (if xs = [] then Float64 else Object)"

definition dtype_of :: "dataframe \<Rightarrow> string \<Rightarrow> dtype option" where
  "dtype_of df c = map_option infer_dtype (column df c)"

subsection \<open>\<^verbatim>\<open>load_data\<close>\<close>

text \<open>
  The loop of \<^verbatim>\<open>load_data\<close> over the paths that \<^verbatim>\<open>glob\<close> yields, with the two lists
  \<^verbatim>\<open>documents\<close> and \<^verbatim>\<open>documents_ids\<close> that it appends to. Inside the \<^verbatim>\<open>with\<close> block
  the text is read and appended first, then the stem of the path.
\<close>

fun load_loop :: "path list \<Rightarrow> string list \<Rightarrow> string list \<Rightarrow> io
    \<Rightarrow> (error + string list \<times> string list) \<times> io" where
  "load_loop [] documents documents_ids s = (Inr (documents, documents_ids), s)"
| "load_loop (file_path # rest) documents documents_ids s =
     (case with_open file_path
             (\<lambda>h s1. case fread h of
                        Inl e \<Rightarrow> (Inl e, s1)
                      | Inr txt \<Rightarrow>
                          (Inr (documents @ [txt], documents_ids @ [stem (fname file_path)]), s1))
             s of
        (Inl e, s') \<Rightarrow> (Inl e, s')
      | (Inr (documents', documents_ids'), s') \<Rightarrow> load_loop rest documents' documents_ids' s')"

definition load_data :: "directory \<Rightarrow> string \<Rightarrow> io \<Rightarrow> (error + dataframe) \<times> io" where
  "load_data data_dir ext s =
     (case glob data_dir (''*.'' @ ext) of
        Inl e \<Rightarrow> (Inl e, s)
      | Inr paths \<Rightarrow>
          (case load_loop paths [] [] s of
             (Inl e, s') \<Rightarrow> (Inl e, s')
           | (Inr (documents, documents_ids), s') \<Rightarrow>
               (DataFrame [(''id'', documents_ids), (''text'', documents)], s')))"

subsection \<open>\<^verbatim>\<open>get_openai_api_key\<close>\<close>

text \<open>The values that \<^verbatim>\<open>json.load\<close> returns.\<close>

datatype json =
    JNull
  | JBool bool
  | JInt int
  | JFloat real
  | JString string
  | JArray "json list"
  | JObject "(string \<times> json) list"

text \<open>
  \<^verbatim>\<open>value['secret_key']\<close>, an index by a string. A dictionary looks the key up and raises
  \<open>KeyError\<close> when it is absent. A list and a string take integer indices only, and
  numbers, booleans and \<^verbatim>\<open>None\<close> cannot be indexed: all of them raise \<open>TypeError\<close>.
  A \<open>JObject\<close> holds the items of the dictionary, whose keys are distinct.
\<close>

fun getitem :: "json \<Rightarrow> string \<Rightarrow> error + json" where
  "getitem (JObject items) k =
     (case map_of items k of None \<Rightarrow> Inl (KeyError k) | Some v \<Rightarrow> Inr v)"
| "getitem (JArray xs) k = Inl TypeError"
| "getitem (JString s) k = Inl TypeError"
| "getitem (JInt i) k = Inl TypeError"
| "getitem (JFloat x) k = Inl TypeError"
| "getitem (JBool b) k = Inl TypeError"
| "getitem JNull k = Inl TypeError"

text \<open>
  \<^verbatim>\<open>json.load(file)\<close> reads the whole file and parses the text. The parser is the
  library's: \<open>json_loads\<close> is a parameter, the text to the value or to the exception.
\<close>

definition json_load :: "(string \<Rightarrow> error + json) \<Rightarrow> path \<Rightarrow> error + json" where
  "json_load json_loads h =
     (case fread h of Inl e \<Rightarrow> Inl e | Inr txt \<Rightarrow> json_loads txt)"

definition get_openai_api_key :: "(string \<Rightarrow> error + json) \<Rightarrow> path \<Rightarrow> io \<Rightarrow> (error + json) \<times> io" where
  "get_openai_api_key json_loads file_path s =
     with_open file_path
       (\<lambda>h s1. case json_load json_loads h of
                  Inl e \<Rightarrow> (Inl e, s1)
                | Inr v \<Rightarrow> (getitem v ''secret_key'', s1))
       s"

subsection \<open>\<^verbatim>\<open>embed_documents\<close>\<close>

text \<open>
  The client is an object of the caller. Its operation \<^verbatim>\<open>embeddings.create\<close> takes the
  state of the client, the documents and the model name, and gives the response or an
  exception and the next state. The record keeps the calls that the client has seen.
\<close>

record ('c, 'r) openai_client =
  cstate :: 'c
  create :: "'c \<Rightarrow> string list \<Rightarrow> string \<Rightarrow> (error + 'r) \<times> 'c"
  calls :: "(string list \<times> string) list"

definition embeddings_create ::
    "('c, 'r) openai_client \<Rightarrow> string list \<Rightarrow> string \<Rightarrow> (error + 'r) \<times> ('c, 'r) openai_client" where
  "embeddings_create cl inp model =
     (case create cl (cstate cl) inp model of
        (r, c') \<Rightarrow> (r, cl\<lparr>cstate := c', calls := calls cl @ [(inp, model)]\<rparr>))"

definition embed_documents ::
    "string list \<Rightarrow> ('c, 'r) openai_client \<Rightarrow> string \<Rightarrow> (error + 'r) \<times> ('c, 'r) openai_client" where
  "embed_documents documents openai_client embedding_model =
     embeddings_create openai_client documents embedding_model"

subsection \<open>The reading of the extension in the specification\<close>

text \<open>
  The specification reads the identifier of a row as the file name with its extension
  stripped, the extension being the one handed to \<^verbatim>\<open>load_data\<close>: the name without
  its ending \<^verbatim>\<open>.<ext>\<close>. This function follows those words and not the code
  (the code calls \<^verbatim>\<open>Path.stem\<close>); the two are compared below.
\<close>

definition strip_ext :: "string \<Rightarrow> string \<Rightarrow> string" where
  "strip_ext ext name =
     (let k = length ext + 1
      in if k \<le> length name \<and> drop (length name - k) name = ''.'' @ ext
         then take (length name - k) name else name)"

text \<open>
  The specification calls the columns of the table correctly typed: \<^verbatim>\<open>id\<close> and
  \<^verbatim>\<open>text\<close> are strings, so both columns have the dtype of a column of strings.
\<close>

definition correctly_typed :: "dataframe \<Rightarrow> bool" where
  "correctly_typed df \<longleftrightarrow> dtype_of df ''id'' = Some Object \<and> dtype_of df ''text'' = Some Object"

subsection \<open>Concrete inputs\<close>

text \<open>No handle is open and none has been opened.\<close>

definition io0 :: io where
  "io0 = \<lparr>live = [], opens = 0\<rparr>"

text \<open>A file that opens and whose bytes decode to the given content.\<close>

definition text_file :: "string \<Rightarrow> string \<Rightarrow> path" where
  "text_file name content = \<lparr>fname = name, fopen = None, fdecoded = Inr content\<rparr>"

text \<open>A directory with two text files and a file of another extension between them.\<close>

definition corpus_dir :: directory where
  "corpus_dir =
     \<lparr>scandir = Inr [text_file ''a.txt'' ''alpha'', text_file ''notes.md'' ''skip'',
                     text_file ''b.txt'' ''beta''],
      fnmatch = posix_fnmatch\<rparr>"

text \<open>A directory with an archive, for the extension \<^verbatim>\<open>tar.gz\<close>.\<close>

definition tar_dir :: directory where
  "tar_dir =
     \<lparr>scandir = Inr [text_file ''a.tar.gz'' ''payload'', text_file ''b.txt'' ''beta''],
      fnmatch = posix_fnmatch\<rparr>"

text \<open>A directory with no text file.\<close>

definition notes_dir :: directory where
  "notes_dir = \<lparr>scandir = Inr [text_file ''notes.md'' ''skip''], fnmatch = posix_fnmatch\<rparr>"

text \<open>
  A directory with a file that has a line ending of two characters, a carriage return
  and a line feed, between \<^verbatim>\<open>a\<close> and \<^verbatim>\<open>b\<close>.
\<close>

definition crlf_dir :: directory where
  "crlf_dir =
     \<lparr>scandir = Inr [text_file ''dos.txt'' [CHR ''a'', CHR 0x0D, CHR 0x0A, CHR ''b'']],
      fnmatch = posix_fnmatch\<rparr>"




text \<open>
  A parser for the examples that knows two texts: an object with the key
  \<^verbatim>\<open>secret_key\<close> and the value \<^verbatim>\<open>abc123\<close>, written \<^verbatim>\<open>KEY\<close> here, an object with
  another key, written \<^verbatim>\<open>OTHER\<close>, and an array, written \<^verbatim>\<open>ARRAY\<close>. Every other text
  is a syntax error.
\<close>

definition stub_loads :: "string \<Rightarrow> error + json" where
  "stub_loads txt =
     (if txt = ''KEY'' then Inr (JObject [(''secret_key'', JString ''abc123'')])
      else if txt = ''OTHER'' then Inr (JObject [(''api_key'', JString ''abc123'')])
      else if txt = ''ARRAY'' then Inr (JArray [JString ''abc123''])
      else Inl JSONDecodeError)"


section \<open>Properties\<close>

subsection \<open>One pass of the loop\<close>

lemma with_open_read:
  "with_open f (\<lambda>h s1. case fread h of Inl e \<Rightarrow> (Inl e, s1) | Inr txt \<Rightarrow> (Inr (g txt), s1)) s =
     (case fopen f of
        Some e \<Rightarrow> (Inl e, s)
      | None \<Rightarrow> (case fread f of
                  Inl e \<Rightarrow> (Inl e, s\<lparr>opens := Suc (opens s)\<rparr>)
                | Inr txt \<Rightarrow> (Inr (g txt), s\<lparr>opens := Suc (opens s)\<rparr>)))"
  by (simp add: with_open_def open_file_def close_file_def split: option.splits sum.splits)

lemma load_loop_Cons:
  "load_loop (f # fs) docs ids s =
     (case fopen f of
        Some e \<Rightarrow> (Inl e, s)
      | None \<Rightarrow> (case fread f of
                  Inl e \<Rightarrow> (Inl e, s\<lparr>opens := Suc (opens s)\<rparr>)
                | Inr txt \<Rightarrow> load_loop fs (docs @ [txt]) (ids @ [stem (fname f)]) (s\<lparr>opens := Suc (opens s)\<rparr>)))"
  by (simp add: with_open_read[where g = "\<lambda>txt. (docs @ [txt], ids @ [stem (fname f)])"]
           split: option.splits sum.splits)

subsection \<open>The whole loop\<close>

lemma load_loop_success:
  "list_all (\<lambda>f. fopen f = None) fs \<Longrightarrow> map fread fs = map Inr txts \<Longrightarrow>
   load_loop fs docs ids s =
     (Inr (docs @ txts, ids @ map (\<lambda>f. stem (fname f)) fs), s\<lparr>opens := opens s + length fs\<rparr>)"
proof (induction fs arbitrary: docs ids s txts)
  case Nil
  then show ?case by simp
next
  case (Cons f fs)
  then obtain t ts where txts: "txts = t # ts" "fread f = Inr t" "map fread fs = map Inr ts"
    by (cases txts) auto
  from Cons.prems have o: "fopen f = None" "list_all (\<lambda>f. fopen f = None) fs" by simp_all
  show ?case
    unfolding load_loop_Cons
    using o txts Cons.IH[OF o(2) txts(3)] by simp
qed

lemma load_loop_Inr:
  "load_loop fs docs ids s = (Inr (D, I), s') \<Longrightarrow>
   \<exists>txts. map fread fs = map Inr txts \<and> list_all (\<lambda>f. fopen f = None) fs \<and>
          D = docs @ txts \<and> I = ids @ map (\<lambda>f. stem (fname f)) fs"
proof (induction fs arbitrary: docs ids s)
  case Nil
  then show ?case by simp
next
  case (Cons f fs)
  from Cons.prems have o: "fopen f = None"
    unfolding load_loop_Cons by (auto split: option.splits)
  with Cons.prems obtain t where t: "fread f = Inr t"
    unfolding load_loop_Cons by (auto split: sum.splits)
  with o Cons.prems have "load_loop fs (docs @ [t]) (ids @ [stem (fname f)]) (s\<lparr>opens := Suc (opens s)\<rparr>) = (Inr (D, I), s')"
    unfolding load_loop_Cons by simp
  from Cons.IH[OF this] obtain ts where
    "map fread fs = map Inr ts" "list_all (\<lambda>f. fopen f = None) fs"
    "D = (docs @ [t]) @ ts" "I = (ids @ [stem (fname f)]) @ map (\<lambda>f. stem (fname f)) fs"
    by blast
  with o t show ?case by (intro exI[of _ "t # ts"]) simp
qed


subsection \<open>The data frame of \<^verbatim>\<open>load_data\<close>\<close>

lemma DataFrame_id_text:
  "DataFrame [(''id'', ids), (''text'', docs)] =
     (if length ids = length docs then Inr [(''id'', ids), (''text'', docs)] else Inl ValueError)"
  by (simp add: DataFrame_def)

lemma load_data_Inr:
  assumes "load_data d ext s = (Inr df, s')" and "glob d (''*.'' @ ext) = Inr ms"
  shows "\<exists>txts. map fread ms = map Inr txts \<and> list_all (\<lambda>f. fopen f = None) ms \<and>
          df = [(''id'', map (\<lambda>f. stem (fname f)) ms), (''text'', txts)]"
proof -
  obtain r s1 where ll: "load_loop ms [] [] s = (r, s1)" by (cases "load_loop ms [] [] s")
  with assms obtain D I where r: "r = Inr (D, I)"
    by (cases r) (auto simp: load_data_def)
  from load_loop_Inr[OF ll[unfolded r]] obtain txts where
    t: "map fread ms = map Inr txts" "list_all (\<lambda>f. fopen f = None) ms"
       "D = txts" "I = map (\<lambda>f. stem (fname f)) ms" by auto
  from t(1) have "length txts = length ms" by (metis length_map)
  with assms ll r t have "df = [(''id'', I), (''text'', D)]"
    by (simp add: load_data_def DataFrame_id_text)
  with t show ?thesis by blast
qed

lemma load_data_success:
  assumes "glob d (''*.'' @ ext) = Inr ms"
    and "list_all (\<lambda>f. fopen f = None) ms"
    and "map fread ms = map Inr txts"
  shows "load_data d ext s =
     (Inr [(''id'', map (\<lambda>f. stem (fname f)) ms), (''text'', txts)],
      s\<lparr>opens := opens s + length ms\<rparr>)"
proof -
  from assms(3) have "length txts = length ms" by (metis length_map)
  with assms(1) load_loop_success[OF assms(2,3), of "[]" "[]" s] show ?thesis
    by (simp add: load_data_def DataFrame_id_text)
qed

lemma glob_filter:
  "scandir d = Inr es \<Longrightarrow> glob d pat = Inr (filter (\<lambda>f. fnmatch d pat (fname f)) es)"
  by (simp add: glob_def)

subsection \<open>The stem of a name\<close>

lemma rfind_notin: "c \<notin> set xs \<Longrightarrow> rfind xs c = - 1"
  by (induction xs) (auto simp: Let_def)

lemma rfind_append_dot: "c \<notin> set ys \<Longrightarrow> rfind (xs @ c # ys) c = int (length xs)"
  by (induction xs) (auto simp: Let_def rfind_notin)

lemma stem_base_ext:
  assumes "base \<noteq> []" "ext \<noteq> []" "CHR ''.'' \<notin> set ext"
  shows "stem (base @ ''.'' @ ext) = base"
proof -
  have "rfind (base @ CHR ''.'' # ext) CHR ''.'' = int (length base)"
    using assms(3) by (rule rfind_append_dot)
  with assms(1,2) show ?thesis by (simp add: stem_def)
qed

lemma strip_ext_base_ext: "strip_ext ext (base @ ''.'' @ ext) = base"
  by (simp add: strip_ext_def)

subsection \<open>Handles\<close>

lemma with_open_live:
  assumes "\<And>h s1. live (snd (body h s1)) = live s1"
  shows "live (snd (with_open f body s)) = live s"
proof (cases "fopen f")
  case None
  obtain r s2 where b: "body f (s\<lparr>live := fname f # live s, opens := Suc (opens s)\<rparr>) = (r, s2)"
    by (cases "body f (s\<lparr>live := fname f # live s, opens := Suc (opens s)\<rparr>)")
  from assms[of f "s\<lparr>live := fname f # live s, opens := Suc (opens s)\<rparr>"] b
  have "live s2 = fname f # live s" by simp
  with None b show ?thesis by (simp add: with_open_def open_file_def close_file_def)
next
  case (Some e)
  then show ?thesis by (simp add: with_open_def open_file_def)
qed

lemma load_loop_live: "live (snd (load_loop fs docs ids s)) = live s"
proof (induction fs arbitrary: docs ids s)
  case Nil
  then show ?case by simp
next
  case (Cons f fs)
  let ?b = "\<lambda>h s1. case fread h of
                        Inl e \<Rightarrow> (Inl e, s1)
                      | Inr txt \<Rightarrow>
                          (Inr (docs @ [txt], ids @ [stem (fname f)]), s1)"
  have w: "live (snd (with_open f ?b s)) = live s"
    by (rule with_open_live) (simp split: sum.splits)
  show ?case
  proof (cases "with_open f ?b s")
    case (Pair r s')
    with w have l: "live s' = live s" by simp
    show ?thesis
    proof (cases r)
      case (Inl e)
      with Pair l show ?thesis by simp
    next
      case (Inr p)
      obtain D I where p: "p = (D, I)" by (cases p)
      with Pair Inr l Cons.IH[of D I s'] show ?thesis by simp
    qed
  qed
qed

lemma load_data_live: "live (snd (load_data d ext s)) = live s"
proof (cases "glob d (''*.'' @ ext)")
  case (Inl e)
  then show ?thesis by (simp add: load_data_def)
next
  case (Inr paths)
  obtain r s' where ll: "load_loop paths [] [] s = (r, s')" by (cases "load_loop paths [] [] s")
  with load_loop_live[of paths "[]" "[]" s] have "live s' = live s" by simp
  with Inr ll show ?thesis by (cases r) (auto simp: load_data_def split: prod.splits)
qed

lemma get_openai_api_key_live: "live (snd (get_openai_api_key jl f s)) = live s"
  unfolding get_openai_api_key_def
  by (rule with_open_live) (simp split: sum.splits)

subsection \<open>The concrete inputs, evaluated\<close>

lemma match_eval:
  "posix_fnmatch ''*.txt'' ''a.txt''" "\<not> posix_fnmatch ''*.txt'' ''notes.md''"
  "posix_fnmatch ''*.txt'' ''b.txt''" "posix_fnmatch ''*.txt'' ''c.txt''"
  "posix_fnmatch ''*.tar.gz'' ''a.tar.gz''" "\<not> posix_fnmatch ''*.tar.gz'' ''b.txt''"
  by simp_all

lemma stem_eval:
  "stem ''a.txt'' = ''a''" "stem ''b.txt'' = ''b''" "stem ''a.tar.gz'' = ''a.tar''"
  by (simp_all add: stem_def)

text \<open>
  A name that begins with its only dot matches \<^verbatim>\<open>*.txt\<close> and is its own stem: the
  stem strips a suffix only behind a non-empty base.
\<close>

lemma dotfile_eval:
  "posix_fnmatch ''*.txt'' ''.txt''" "stem ''.txt'' = ''.txt''"
  by (simp_all add: stem_def)

lemma corpus_glob:
  "glob corpus_dir ''*.txt'' = Inr [text_file ''a.txt'' ''alpha'', text_file ''b.txt'' ''beta'']"
  by (simp add: glob_def corpus_dir_def text_file_def)

text \<open>Two handles are opened while the directory is loaded, and none is open at the end.\<close>

lemma corpus_load:
  "load_data corpus_dir ''txt'' io0 =
     (Inr [(''id'', [''a'', ''b'']), (''text'', [''alpha'', ''beta''])], \<lparr>live = [], opens = 2\<rparr>)"
  using load_data_success[of corpus_dir "''txt''" "[text_file ''a.txt'' ''alpha'', text_file ''b.txt'' ''beta'']" "[''alpha'', ''beta'']" io0]
    corpus_glob
  by (simp add: text_file_def fread_def stem_eval io0_def)

lemma tar_load:
  "load_data tar_dir ''tar.gz'' io0 =
     (Inr [(''id'', [''a.tar'']), (''text'', [''payload''])], \<lparr>live = [], opens = 1\<rparr>)"
  using load_data_success[of tar_dir "''tar.gz''" "[text_file ''a.tar.gz'' ''payload'']" "[''payload'']" io0]
  by (simp add: glob_def tar_dir_def text_file_def fread_def stem_eval io0_def)


subsection \<open>Reading every file, and the four steps of the secret loader\<close>

lemma all_read_texts:
  "\<forall>f\<in>set fs. \<exists>t. fread f = Inr t \<Longrightarrow> \<exists>txts. map fread fs = map Inr txts"
proof (induction fs)
  case Nil
  then show ?case by simp
next
  case (Cons f fs)
  then obtain t ts where "fread f = Inr t" "map fread fs = map Inr ts" by auto
  then have "map fread (f # fs) = map Inr (t # ts)" by simp
  then show ?case by blast
qed


subsection \<open>What the example matcher accepts\<close>

text \<open>
  For an extension without \<^verbatim>\<open>*\<close> and \<^verbatim>\<open>?\<close>, the pattern \<^verbatim>\<open>*.<ext>\<close> accepts the names
  that end with a dot and the extension, and no other name.
\<close>

lemma posix_fnmatch_literal:
  "CHR ''*'' \<notin> set lit \<Longrightarrow> CHR ''?'' \<notin> set lit \<Longrightarrow> posix_fnmatch lit n \<longleftrightarrow> n = lit"
proof (induction lit arbitrary: n)
  case Nil
  then show ?case by (cases n) simp_all
next
  case (Cons p ps)
  then show ?case by (cases n) auto
qed

lemma posix_fnmatch_star:
  "posix_fnmatch (CHR ''*'' # ps) n \<longleftrightarrow> (\<exists>pre rest. n = pre @ rest \<and> posix_fnmatch ps rest)"
proof (induction n)
  case Nil
  then show ?case by simp
next
  case (Cons c cs)
  show ?case
  proof
    assume "posix_fnmatch (CHR ''*'' # ps) (c # cs)"
    then consider "posix_fnmatch ps (c # cs)" | "posix_fnmatch (CHR ''*'' # ps) cs" by auto
    then show "\<exists>pre rest. c # cs = pre @ rest \<and> posix_fnmatch ps rest"
    proof cases
      case 1
      then have "c # cs = [] @ (c # cs) \<and> posix_fnmatch ps (c # cs)" by simp
      then show ?thesis by blast
    next
      case 2
      with Cons.IH obtain pre rest where "cs = pre @ rest" "posix_fnmatch ps rest" by blast
      then have "c # cs = (c # pre) @ rest \<and> posix_fnmatch ps rest" by simp
      then show ?thesis by blast
    qed
  next
    assume "\<exists>pre rest. c # cs = pre @ rest \<and> posix_fnmatch ps rest"
    then obtain pre rest where pr: "c # cs = pre @ rest" "posix_fnmatch ps rest" by blast
    show "posix_fnmatch (CHR ''*'' # ps) (c # cs)"
    proof (cases pre)
      case Nil
      with pr have "posix_fnmatch ps (c # cs)" by simp
      then show ?thesis by simp
    next
      case (Cons a pre')
      with pr have "cs = pre' @ rest" by simp
      with pr(2) Cons.IH have "posix_fnmatch (CHR ''*'' # ps) cs" by blast
      then show ?thesis by simp
    qed
  qed
qed

lemma posix_fnmatch_ext:
  assumes "CHR ''*'' \<notin> set ext" "CHR ''?'' \<notin> set ext"
  shows "posix_fnmatch (''*.'' @ ext) name \<longleftrightarrow> (\<exists>base. name = base @ ''.'' @ ext)"
proof -
  have "posix_fnmatch (''*.'' @ ext) name \<longleftrightarrow>
        (\<exists>pre rest. name = pre @ rest \<and> posix_fnmatch (''.'' @ ext) rest)"
    using posix_fnmatch_star[of "''.'' @ ext" name] by simp
  also have "\<dots> \<longleftrightarrow> (\<exists>pre rest. name = pre @ rest \<and> rest = ''.'' @ ext)"
    using assms posix_fnmatch_literal[of "''.'' @ ext"] by simp
  finally show ?thesis by simp
qed

subsection \<open>Newlines, and the listings that \<^verbatim>\<open>glob\<close> passes over\<close>

lemma universal_newlines_no_cr: "CHR 0x0D \<notin> set c \<Longrightarrow> universal_newlines c = c"
  by (induction c rule: universal_newlines.induct) auto

lemma fread_decoded:
  "map fread ms = map Inr txts \<Longrightarrow>
   \<exists>contents. map fdecoded ms = map Inr contents \<and> txts = map universal_newlines contents"
proof (induction ms arbitrary: txts)
  case Nil
  then show ?case by simp
next
  case (Cons f ms)
  then obtain t ts where txts: "txts = t # ts" "fread f = Inr t" "map fread ms = map Inr ts"
    by (cases txts) auto
  from txts(2) obtain c where c: "fdecoded f = Inr c" "t = universal_newlines c"
    by (auto simp: fread_def split: sum.splits)
  from Cons.IH[OF txts(3)] obtain cs where cs: "map fdecoded ms = map Inr cs" "ts = map universal_newlines cs"
    by blast
  from c cs txts(1) have "map fdecoded (f # ms) = map Inr (c # cs) \<and> txts = map universal_newlines (c # cs)"
    by simp
  then show ?case by blast
qed


lemma crlf_load:
  "load_data crlf_dir ''txt'' io0 =
     (Inr [(''id'', [''dos'']), (''text'', [[CHR ''a'', CHR 0x0A, CHR ''b'']])], \<lparr>live = [], opens = 1\<rparr>)"
  using load_data_success[of crlf_dir "''txt''" "[text_file ''dos.txt'' [CHR ''a'', CHR 0x0D, CHR 0x0A, CHR ''b'']]"
      "[[CHR ''a'', CHR 0x0A, CHR ''b'']]" io0]
  by (simp add: glob_def crlf_dir_def text_file_def fread_def stem_def io0_def)


lemma notes_load:
  "load_data notes_dir ''txt'' io0 = (Inr [(''id'', []), (''text'', [])], io0)"
  by (simp add: load_data_def glob_def notes_dir_def text_file_def DataFrame_id_text)

section \<open>The claims\<close>

text \<open>
  C3. For every client, every list of documents and every model name,
  \<^verbatim>\<open>embed_documents\<close> returns what the client's embedding operation returns on the
  state the client is in, with the given documents and the given model name. The
  client sees one more call than before, the call with these two arguments, and its
  state is the one the operation leaves.
\<close>

theorem embed_documents_forwards:
  "fst (embed_documents documents cl model) = fst (create cl (cstate cl) documents model)
   \<and> calls (snd (embed_documents documents cl model)) = calls cl @ [(documents, model)]
   \<and> cstate (snd (embed_documents documents cl model)) = snd (create cl (cstate cl) documents model)"
  by (simp add: embed_documents_def embeddings_create_def split: prod.splits)

text \<open>
  C4. When the file opens, its text is read and the text parses to the object with
  the one key \<^verbatim>\<open>secret_key\<close> and the value \<^verbatim>\<open>"abc123"\<close>, then
  \<^verbatim>\<open>get_openai_api_key\<close> returns the string \<^verbatim>\<open>"abc123"\<close>.
\<close>

theorem get_openai_api_key_abc123:
  assumes "fopen p = None" and "fread p = Inr txt"
    and "json_loads txt = Inr (JObject [(''secret_key'', JString ''abc123'')])"
  shows "fst (get_openai_api_key json_loads p s) = Inr (JString ''abc123'')"
  using assms
  by (simp add: get_openai_api_key_def with_open_def open_file_def json_load_def)

theorem get_openai_api_key_abc123_witness:
  "fopen (text_file ''key.json'' ''KEY'') = None
   \<and> fread (text_file ''key.json'' ''KEY'') = Inr ''KEY''
   \<and> stub_loads ''KEY'' = Inr (JObject [(''secret_key'', JString ''abc123'')])
   \<and> fst (get_openai_api_key stub_loads (text_file ''key.json'' ''KEY'') io0) = Inr (JString ''abc123'')"
  using get_openai_api_key_abc123[of "text_file ''key.json'' ''KEY''" "''KEY''" stub_loads io0]
  by (simp add: text_file_def fread_def stub_loads_def)

text \<open>
  C5. When the text of the file parses to an object that has no key \<^verbatim>\<open>secret_key\<close>,
  \<^verbatim>\<open>get_openai_api_key\<close> raises \<open>KeyError\<close> for that key: the result is the
  exception, so no value, default or empty, is returned.
\<close>

theorem get_openai_api_key_missing_key:
  assumes "fopen p = None" and "fread p = Inr txt"
    and "json_loads txt = Inr (JObject items)"
    and "''secret_key'' \<notin> fst ` set items"
  shows "fst (get_openai_api_key json_loads p s) = Inl (KeyError ''secret_key'')"
proof -
  from assms(4) have "map_of items ''secret_key'' = None"
    by (simp add: map_of_eq_None_iff)
  with assms(1-3) show ?thesis
    by (simp add: get_openai_api_key_def with_open_def open_file_def json_load_def)
qed

theorem get_openai_api_key_missing_key_witness:
  "fopen (text_file ''key.json'' ''OTHER'') = None
   \<and> fread (text_file ''key.json'' ''OTHER'') = Inr ''OTHER''
   \<and> stub_loads ''OTHER'' = Inr (JObject [(''api_key'', JString ''abc123'')])
   \<and> ''secret_key'' \<notin> fst ` set [(''api_key'', JString ''abc123'')]
   \<and> fst (get_openai_api_key stub_loads (text_file ''key.json'' ''OTHER'') io0) = Inl (KeyError ''secret_key'')"
  using get_openai_api_key_missing_key[of "text_file ''key.json'' ''OTHER''" "''OTHER''" stub_loads
      "[(''api_key'', JString ''abc123'')]" io0]
  by (simp add: text_file_def fread_def stub_loads_def)

text \<open>
  C10. When the text of the file parses to a value that is not an object (an array, a
  string, a number, a boolean or null), \<^verbatim>\<open>get_openai_api_key\<close> raises \<open>TypeError\<close>,
  which comes from the indexing, and not \<open>KeyError\<close>; no value is returned.
\<close>

theorem get_openai_api_key_not_object:
  assumes "fopen p = None" and "fread p = Inr txt"
    and "json_loads txt = Inr v"
    and "\<And>items. v \<noteq> JObject items"
  shows "fst (get_openai_api_key json_loads p s) = Inl TypeError
         \<and> fst (get_openai_api_key json_loads p s) \<noteq> Inl (KeyError ''secret_key'')"
proof -
  from assms(4) have "getitem v ''secret_key'' = Inl TypeError" by (cases v) auto
  with assms(1-3) show ?thesis
    by (simp add: get_openai_api_key_def with_open_def open_file_def json_load_def)
qed

theorem get_openai_api_key_not_object_witness:
  "fopen (text_file ''key.json'' ''ARRAY'') = None
   \<and> fread (text_file ''key.json'' ''ARRAY'') = Inr ''ARRAY''
   \<and> stub_loads ''ARRAY'' = Inr (JArray [JString ''abc123''])
   \<and> (\<forall>items. JArray [JString ''abc123''] \<noteq> JObject items)
   \<and> fst (get_openai_api_key stub_loads (text_file ''key.json'' ''ARRAY'') io0) = Inl TypeError"
  using get_openai_api_key_not_object[of "text_file ''key.json'' ''ARRAY''" "''ARRAY''" stub_loads
      "JArray [JString ''abc123'']" io0]
  by (simp add: text_file_def fread_def stub_loads_def)

text \<open>
  C8. After a call of \<^verbatim>\<open>load_data\<close> and after a call of \<^verbatim>\<open>get_openai_api_key\<close> the
  open handles are the ones that were open before the call, whatever the call did:
  whether it returned a value or raised while listing, opening, reading, parsing or
  indexing. Every handle that the call opened has been closed.
\<close>

theorem handles_released:
  "live (snd (load_data d ext s)) = live s
   \<and> live (snd (get_openai_api_key json_loads p s)) = live s"
  by (simp add: load_data_live get_openai_api_key_live)

text \<open>
  C1. Let the listing of the directory give the entries \<open>es\<close>. If every entry whose
  name matches \<^verbatim>\<open>*.<ext>\<close> opens and decodes, \<^verbatim>\<open>load_data\<close> returns a data frame.
  Whenever it returns a data frame, the frame has as many rows as \<open>es\<close> has matching
  entries, and its rows are those entries in the order of the listing: the column
  \<^verbatim>\<open>id\<close> holds their stems, the column \<^verbatim>\<open>text\<close> their contents. An entry that does
  not match gives no row.
\<close>

theorem load_data_row_count:
  assumes "scandir d = Inr es"
  shows "((\<forall>f\<in>set es. fnmatch d (''*.'' @ ext) (fname f) \<longrightarrow> fopen f = None \<and> (\<exists>t. fread f = Inr t))
            \<longrightarrow> (\<exists>df s'. load_data d ext s = (Inr df, s')))
         \<and> (\<forall>df s'. load_data d ext s = (Inr df, s') \<longrightarrow>
               nrows df = length (filter (\<lambda>f. fnmatch d (''*.'' @ ext) (fname f)) es)
               \<and> column df ''id'' = Some (map (\<lambda>f. stem (fname f)) (filter (\<lambda>f. fnmatch d (''*.'' @ ext) (fname f)) es))
               \<and> (\<exists>txts. column df ''text'' = Some txts
                     \<and> map fread (filter (\<lambda>f. fnmatch d (''*.'' @ ext) (fname f)) es) = map Inr txts))"
proof -
  let ?ms = "filter (\<lambda>f. fnmatch d (''*.'' @ ext) (fname f)) es"
  have g: "glob d (''*.'' @ ext) = Inr ?ms" using assms by (rule glob_filter)
  have total: "\<exists>df s'. load_data d ext s = (Inr df, s')"
    if ok: "\<forall>f\<in>set es. fnmatch d (''*.'' @ ext) (fname f) \<longrightarrow> fopen f = None \<and> (\<exists>t. fread f = Inr t)"
  proof -
    from ok have o: "list_all (\<lambda>f. fopen f = None) ?ms" by (simp add: list_all_iff)
    from ok have "\<forall>f\<in>set ?ms. \<exists>t. fread f = Inr t" by simp
    then have "\<exists>txts. map fread ?ms = map Inr txts" by (rule all_read_texts)
    then obtain txts where "map fread ?ms = map Inr txts" ..
    from load_data_success[OF g o this, of s] show ?thesis by blast
  qed
  have rows: "nrows df = length ?ms \<and> column df ''id'' = Some (map (\<lambda>f. stem (fname f)) ?ms)
        \<and> (\<exists>txts. column df ''text'' = Some txts \<and> map fread ?ms = map Inr txts)"
    if "load_data d ext s = (Inr df, s')" for df s'
  proof -
    from load_data_Inr[OF that g] obtain txts where
      t: "map fread ?ms = map Inr txts" "df = [(''id'', map (\<lambda>f. stem (fname f)) ?ms), (''text'', txts)]"
      by blast
    then show ?thesis by (auto simp: nrows_def column_def)
  qed
  from total rows show ?thesis by blast
qed

theorem load_data_row_count_witness:
  "scandir corpus_dir = Inr [text_file ''a.txt'' ''alpha'', text_file ''notes.md'' ''skip'', text_file ''b.txt'' ''beta'']
   \<and> load_data corpus_dir ''txt'' io0 =
        (Inr [(''id'', [''a'', ''b'']), (''text'', [''alpha'', ''beta''])], \<lparr>live = [], opens = 2\<rparr>)
   \<and> nrows [(''id'', [''a'', ''b'']), (''text'', [''alpha'', ''beta''])] = 2
   \<and> length (filter (\<lambda>f. fnmatch corpus_dir (''*.'' @ ''txt'') (fname f))
        [text_file ''a.txt'' ''alpha'', text_file ''notes.md'' ''skip'', text_file ''b.txt'' ''beta'']) = 2
   \<and> column [(''id'', [''a'', ''b'']), (''text'', [''alpha'', ''beta''])] ''id'' = Some [''a'', ''b'']"
  using load_data_row_count[of corpus_dir
      "[text_file ''a.txt'' ''alpha'', text_file ''notes.md'' ''skip'', text_file ''b.txt'' ''beta'']" "''txt''" io0]
    corpus_load
  by (simp add: corpus_dir_def text_file_def nrows_def column_def)

text \<open>
  C9. When \<^verbatim>\<open>load_data\<close> returns a data frame, its columns \<^verbatim>\<open>id\<close> and \<^verbatim>\<open>text\<close>
  have the same length, the number of paths that \<^verbatim>\<open>glob\<close> yielded, and at every
  index the identifier and the text come from the path at that index of the iteration:
  the identifier is its stem, the text is what reading it gave.
\<close>

theorem load_data_columns_aligned:
  assumes "load_data d ext s = (Inr df, s')" and "glob d (''*.'' @ ext) = Inr ms"
  shows "\<exists>ids texts. column df ''id'' = Some ids \<and> column df ''text'' = Some texts
           \<and> length ids = length texts \<and> length ids = length ms \<and> nrows df = length ms
           \<and> (\<forall>i<length ms. ids ! i = stem (fname (ms ! i)) \<and> fread (ms ! i) = Inr (texts ! i))"
proof -
  from load_data_Inr[OF assms] obtain txts where
    t: "map fread ms = map Inr txts" "df = [(''id'', map (\<lambda>f. stem (fname f)) ms), (''text'', txts)]"
    by blast
  from t(1) have len: "length txts = length ms" by (metis length_map)
  have "fread (ms ! i) = Inr (txts ! i)" if "i < length ms" for i
  proof -
    from that have "fread (ms ! i) = map fread ms ! i" by simp
    also have "\<dots> = map Inr txts ! i" by (simp only: t(1))
    also from that len have "\<dots> = Inr (txts ! i)" by simp
    finally show ?thesis .
  qed
  with t(2) len show ?thesis by (simp add: column_def nrows_def)
qed

theorem load_data_columns_aligned_witness:
  "load_data corpus_dir ''txt'' io0 =
        (Inr [(''id'', [''a'', ''b'']), (''text'', [''alpha'', ''beta''])], \<lparr>live = [], opens = 2\<rparr>)
   \<and> glob corpus_dir (''*.'' @ ''txt'') = Inr [text_file ''a.txt'' ''alpha'', text_file ''b.txt'' ''beta'']
   \<and> (\<exists>ids texts. column [(''id'', [''a'', ''b'']), (''text'', [''alpha'', ''beta''])] ''id'' = Some ids
         \<and> column [(''id'', [''a'', ''b'']), (''text'', [''alpha'', ''beta''])] ''text'' = Some texts
         \<and> length ids = length texts \<and> length ids = 2
         \<and> ids ! 1 = stem ''b.txt'' \<and> texts ! 1 = ''beta'')"
proof -
  have l: "load_data corpus_dir ''txt'' io0 =
        (Inr [(''id'', [''a'', ''b'']), (''text'', [''alpha'', ''beta''])], \<lparr>live = [], opens = 2\<rparr>)"
    by (rule corpus_load)
  have g: "glob corpus_dir (''*.'' @ ''txt'') = Inr [text_file ''a.txt'' ''alpha'', text_file ''b.txt'' ''beta'']"
    using corpus_glob by simp
  from load_data_columns_aligned[OF l g] l g show ?thesis
    by (simp add: column_def text_file_def stem_eval)
qed

text \<open>
  C6, as the code has it. When the listing of the directory succeeds and no entry
  matches the pattern \<^verbatim>\<open>*.<ext>\<close>, \<^verbatim>\<open>load_data\<close> returns a data frame with no rows.
  It has the columns \<^verbatim>\<open>id\<close> and \<^verbatim>\<open>text\<close> and both are empty. Both have the dtype
  \<^verbatim>\<open>float64\<close>, the default of pandas for an empty list, and not the dtype of a column
  of strings. No handle is opened.
\<close>

theorem load_data_no_match:
  assumes "scandir d = Inr es"
    and "\<forall>f\<in>set es. \<not> fnmatch d (''*.'' @ ext) (fname f)"
  shows "\<exists>df. load_data d ext s = (Inr df, s) \<and> nrows df = 0
           \<and> column df ''id'' = Some [] \<and> column df ''text'' = Some []
           \<and> dtype_of df ''id'' = Some Float64 \<and> dtype_of df ''text'' = Some Float64
           \<and> \<not> correctly_typed df"
proof -
  from assms(2) have "filter (\<lambda>f. fnmatch d (''*.'' @ ext) (fname f)) es = []"
    by (simp add: filter_empty_conv)
  with assms(1) have "glob d (''*.'' @ ext) = Inr []" by (simp add: glob_def)
  then have "load_data d ext s = (Inr [(''id'', []), (''text'', [])], s)"
    by (simp add: load_data_def DataFrame_id_text)
  then show ?thesis
    by (simp add: nrows_def column_def dtype_of_def infer_dtype_def correctly_typed_def)
qed

theorem load_data_no_match_witness:
  "scandir notes_dir = Inr [text_file ''notes.md'' ''skip'']
   \<and> \<not> fnmatch notes_dir (''*.'' @ ''txt'') (fname (text_file ''notes.md'' ''skip''))
   \<and> (\<exists>df. load_data notes_dir ''txt'' io0 = (Inr df, io0) \<and> nrows df = 0
           \<and> column df ''id'' = Some [] \<and> column df ''text'' = Some []
           \<and> dtype_of df ''id'' = Some Float64 \<and> dtype_of df ''text'' = Some Float64)"
proof -
  have sc: "scandir notes_dir = Inr [text_file ''notes.md'' ''skip'']"
    by (simp add: notes_dir_def)
  have nm: "\<not> fnmatch notes_dir (''*.'' @ ''txt'') (fname (text_file ''notes.md'' ''skip''))"
    by (simp add: notes_dir_def text_file_def)
  then have "\<forall>f\<in>set [text_file ''notes.md'' ''skip'']. \<not> fnmatch notes_dir (''*.'' @ ''txt'') (fname f)"
    by simp
  from load_data_no_match[OF sc this, of io0] sc nm show ?thesis by blast
qed

text \<open>
  C6 as the specification states it fails in its words on types: for a directory with
  one file of another extension the table is empty and its two columns are not typed
  as columns of strings, which the columns of a table with rows are.
\<close>

theorem load_data_no_match_counterexample:
  "scandir notes_dir = Inr [text_file ''notes.md'' ''skip'']
   \<and> \<not> fnmatch notes_dir (''*.'' @ ''txt'') (fname (text_file ''notes.md'' ''skip''))
   \<and> load_data notes_dir ''txt'' io0 = (Inr [(''id'', []), (''text'', [])], io0)
   \<and> dtype_of [(''id'', []), (''text'', [])] ''id'' = Some Float64
   \<and> dtype_of [(''id'', []), (''text'', [])] ''text'' = Some Float64
   \<and> \<not> correctly_typed [(''id'', []), (''text'', [])]
   \<and> correctly_typed [(''id'', [''a'', ''b'']), (''text'', [''alpha'', ''beta''])]"
proof -
  have "scandir notes_dir = Inr [text_file ''notes.md'' ''skip'']"
    by (simp add: notes_dir_def)
  moreover have "\<not> fnmatch notes_dir (''*.'' @ ''txt'') (fname (text_file ''notes.md'' ''skip''))"
    by (simp add: notes_dir_def text_file_def)
  ultimately show ?thesis
    by (simp add: notes_load dtype_of_def column_def infer_dtype_def correctly_typed_def)
qed

text \<open>
  C2, as the code has it. In every row the identifier is \<^verbatim>\<open>Path.stem\<close> of the file
  name, the name without its last suffix, and the text is the decoded content of the
  file with its newlines translated: a carriage return and line feed, and a carriage
  return alone, are one line feed in the text. For a content without a carriage return
  the text is the content, character by character. When the extension handed in is not
  empty and has no dot, and the name is a non-empty base followed by a dot and the
  extension, the stem is that base: the name with \<^verbatim>\<open>.<ext>\<close> stripped.
\<close>

theorem load_data_id_is_stem:
  assumes "load_data d ext s = (Inr df, s')" and "glob d (''*.'' @ ext) = Inr ms"
  shows "column df ''id'' = Some (map (\<lambda>f. stem (fname f)) ms)
         \<and> (\<exists>contents texts. map fdecoded ms = map Inr contents \<and> column df ''text'' = Some texts
               \<and> texts = map universal_newlines contents
               \<and> (\<forall>i<length contents. CHR 0x0D \<notin> set (contents ! i) \<longrightarrow> texts ! i = contents ! i))
         \<and> (\<forall>f\<in>set ms. \<forall>base. ext \<noteq> [] \<and> CHR ''.'' \<notin> set ext \<and> base \<noteq> [] \<and> fname f = base @ ''.'' @ ext
               \<longrightarrow> stem (fname f) = base \<and> strip_ext ext (fname f) = base)"
proof -
  from load_data_Inr[OF assms] obtain txts where
    t: "map fread ms = map Inr txts" "df = [(''id'', map (\<lambda>f. stem (fname f)) ms), (''text'', txts)]"
    by blast
  from fread_decoded[OF t(1)] obtain contents where
    c: "map fdecoded ms = map Inr contents" "txts = map universal_newlines contents" by blast
  have ids: "column df ''id'' = Some (map (\<lambda>f. stem (fname f)) ms)"
    using t(2) by (simp add: column_def)
  have same: "txts ! i = contents ! i" if "i < length contents" "CHR 0x0D \<notin> set (contents ! i)" for i
    using that c(2) by (simp add: universal_newlines_no_cr)
  have col: "column df ''text'' = Some txts" using t(2) by (simp add: column_def)
  from c col same have texts: "\<exists>contents texts. map fdecoded ms = map Inr contents \<and> column df ''text'' = Some texts
               \<and> texts = map universal_newlines contents
               \<and> (\<forall>i<length contents. CHR 0x0D \<notin> set (contents ! i) \<longrightarrow> texts ! i = contents ! i)"
    by blast
  have stripped: "stem (fname f) = base \<and> strip_ext ext (fname f) = base"
    if "ext \<noteq> [] \<and> CHR ''.'' \<notin> set ext \<and> base \<noteq> [] \<and> fname f = base @ ''.'' @ ext" for f :: path and base
  proof -
    from that have "stem (base @ ''.'' @ ext) = base" by (intro stem_base_ext) simp_all
    moreover have "strip_ext ext (base @ ''.'' @ ext) = base" by (rule strip_ext_base_ext)
    ultimately show ?thesis using that by simp
  qed
  from ids texts stripped show ?thesis by blast
qed

theorem load_data_id_is_stem_witness:
  "load_data corpus_dir ''txt'' io0 =
        (Inr [(''id'', [''a'', ''b'']), (''text'', [''alpha'', ''beta''])], \<lparr>live = [], opens = 2\<rparr>)
   \<and> glob corpus_dir (''*.'' @ ''txt'') = Inr [text_file ''a.txt'' ''alpha'', text_file ''b.txt'' ''beta'']
   \<and> column [(''id'', [''a'', ''b'']), (''text'', [''alpha'', ''beta''])] ''id'' = Some [stem ''a.txt'', stem ''b.txt'']
   \<and> map fdecoded [text_file ''a.txt'' ''alpha'', text_file ''b.txt'' ''beta''] = map Inr [''alpha'', ''beta'']
   \<and> column [(''id'', [''a'', ''b'']), (''text'', [''alpha'', ''beta''])] ''text''
        = Some (map universal_newlines [''alpha'', ''beta''])
   \<and> CHR 0x0D \<notin> set ''alpha''
   \<and> ''txt'' \<noteq> [] \<and> CHR ''.'' \<notin> set ''txt'' \<and> ''a'' \<noteq> [] \<and> fname (text_file ''a.txt'' ''alpha'') = ''a'' @ ''.'' @ ''txt''
   \<and> stem ''a.txt'' = ''a'' \<and> strip_ext ''txt'' ''a.txt'' = ''a''"
proof -
  have l: "load_data corpus_dir ''txt'' io0 =
        (Inr [(''id'', [''a'', ''b'']), (''text'', [''alpha'', ''beta''])], \<lparr>live = [], opens = 2\<rparr>)"
    by (rule corpus_load)
  have g: "glob corpus_dir (''*.'' @ ''txt'') = Inr [text_file ''a.txt'' ''alpha'', text_file ''b.txt'' ''beta'']"
    using corpus_glob by simp
  have col: "column [(''id'', [''a'', ''b'']), (''text'', [''alpha'', ''beta''])] ''text''
        = Some (map universal_newlines [''alpha'', ''beta''])"
    by (simp add: column_def)
  from load_data_id_is_stem[OF l g] l g col show ?thesis
    by (simp add: text_file_def)
qed

text \<open>
  C2 as the specification states it fails twice. With the extension \<^verbatim>\<open>tar.gz\<close> and
  the file \<^verbatim>\<open>a.tar.gz\<close> the name with the extension stripped is \<^verbatim>\<open>a\<close>, and the
  identifier that \<^verbatim>\<open>load_data\<close> gives is \<^verbatim>\<open>a.tar\<close>. For a file whose decoded
  content has a carriage return before a line feed, the text of the row has the line
  feed only and is not the decoded content.
\<close>

theorem load_data_rows_counterexample:
  "fst (load_data tar_dir ''tar.gz'' io0) = Inr [(''id'', [''a.tar'']), (''text'', [''payload''])]
   \<and> glob tar_dir (''*.'' @ ''tar.gz'') = Inr [text_file ''a.tar.gz'' ''payload'']
   \<and> strip_ext ''tar.gz'' (fname (text_file ''a.tar.gz'' ''payload'')) = ''a''
   \<and> column [(''id'', [''a.tar'']), (''text'', [''payload''])] ''id''
       \<noteq> Some [strip_ext ''tar.gz'' (fname (text_file ''a.tar.gz'' ''payload''))]
   \<and> fst (load_data crlf_dir ''txt'' io0) = Inr [(''id'', [''dos'']), (''text'', [[CHR ''a'', CHR 0x0A, CHR ''b'']])]
   \<and> glob crlf_dir (''*.'' @ ''txt'') = Inr [text_file ''dos.txt'' [CHR ''a'', CHR 0x0D, CHR 0x0A, CHR ''b'']]
   \<and> fdecoded (text_file ''dos.txt'' [CHR ''a'', CHR 0x0D, CHR 0x0A, CHR ''b'']) = Inr [CHR ''a'', CHR 0x0D, CHR 0x0A, CHR ''b'']
   \<and> column [(''id'', [''dos'']), (''text'', [[CHR ''a'', CHR 0x0A, CHR ''b'']])] ''text''
       \<noteq> Some [[CHR ''a'', CHR 0x0D, CHR 0x0A, CHR ''b'']]"
proof -
  have "glob tar_dir (''*.'' @ ''tar.gz'') = Inr [text_file ''a.tar.gz'' ''payload'']"
    by (simp add: glob_def tar_dir_def text_file_def)
  moreover have "strip_ext ''tar.gz'' (fname (text_file ''a.tar.gz'' ''payload'')) = ''a''"
    by (simp add: strip_ext_def text_file_def)
  moreover have "glob crlf_dir (''*.'' @ ''txt'') = Inr [text_file ''dos.txt'' [CHR ''a'', CHR 0x0D, CHR 0x0A, CHR ''b'']]"
    by (simp add: glob_def crlf_dir_def text_file_def)
  moreover have "fdecoded (text_file ''dos.txt'' [CHR ''a'', CHR 0x0D, CHR 0x0A, CHR ''b'']) = Inr [CHR ''a'', CHR 0x0D, CHR 0x0A, CHR ''b'']"
    by (simp add: text_file_def)
  ultimately show ?thesis by (simp add: tar_load crlf_load column_def)
qed




end
